theory Spec2Isabelle
  imports Main "HOL-Library.AList"
begin

section \<open>Vote arbitration of game.py\<close>

text \<open>
  A shallow embedding of \<^verbatim>\<open>src/game.py\<close>: the per-player record \<^verbatim>\<open>PlayerInfo\<close>, the
  class attributes of \<^verbatim>\<open>GameComponent\<close> and its event handlers. Python dictionaries
  keep their keys in insertion order, so \<^verbatim>\<open>players\<close>, \<^verbatim>\<open>totals\<close> and \<^verbatim>\<open>keycodes\<close>
  are association lists: \<open>map_of\<close> is a lookup, \<open>AList.update\<close> is the assignment
  \<^verbatim>\<open>d[k] = v\<close> (in place for a key that exists, at the end for a new one) and
  \<open>AList.delete\<close> is \<^verbatim>\<open>del d[k]\<close>. Calls to the message bus and to xdo are recorded,
  in the order they are made, in a trace of effects. A handler that raises returns
  \<open>Inl\<close> with the exception and the state as it was at the raise.
\<close>

subsection \<open>Constants\<close>

definition keycodes :: "(string \<times> string) list" where
  "keycodes =
     [(''up'', ''Up''), (''down'', ''Down''), (''left'', ''Left''), (''right'', ''Right''),
      (''select'', ''BackSpace''), (''start'', ''Return''), (''a'', ''x''), (''b'', ''z'')]"

text \<open>\<^verbatim>\<open>Button.START\<close>, the only constant of class \<^verbatim>\<open>Button\<close> the handlers read.\<close>

definition START :: string where
  "START = ''start''"

text \<open>The key list of the comprehension that builds \<^verbatim>\<open>totals\<close> in \<^verbatim>\<open>calculate_buttons\<close>.\<close>

definition BUTTONS :: "string list" where
  "BUTTONS = [''up'', ''down'', ''left'', ''right'', ''select'', ''start'', ''a'', ''b'']"

definition RED :: int where "RED = 0x020000"
definition GREEN :: int where "GREEN = 0x000200"
definition WHITE :: int where "WHITE = 0x010101"
definition OFF :: int where "OFF = 0x000000"

definition GAME_ID :: string where
  "GAME_ID = ''magfest_plays''"

definition QUIT_TIME :: int where
  "QUIT_TIME = 1500"

subsection \<open>Data\<close>

type_synonym badge_id = nat

datatype handler = On_button_press | On_button_release

text \<open>
  The object returned by \<^verbatim>\<open>self.subscribe(handler, topic)\<close>: the handler, the badge of
  the topic \<^verbatim>\<open>badge.<id>.button.press\<close> or \<^verbatim>\<open>badge.<id>.button.release\<close>, and a number
  that tells two subscription objects of the same topic apart.
\<close>

datatype subscription = Subscription handler badge_id nat

text \<open>
  \<^verbatim>\<open>PlayerInfo\<close>. The field \<^verbatim>\<open>brightness\<close> (a float that nothing reads) is left out.
\<close>

record PlayerInfo =
  badge_id :: badge_id
  current_button :: "string option"
  start_press_at :: int
  selected_light :: int
  light_settings :: "int list"
  subscriptions :: "subscription list"

datatype effect =
    Print_unknown_player badge_id
  | Print_joined badge_id
  | Print_left badge_id
  | Print_saved_state
  | Print_pushing "string option"
  | Subscribe subscription
  | Unsubscribe subscription
  | Publish_lights badge_id "int list"
  | Publish_kick string badge_id
  | Search_windows
  | Keysequence string
  | Keysequence_down string
  | Keysequence_up string

text \<open>
  The attributes of \<^verbatim>\<open>GameComponent\<close>. Its \<^verbatim>\<open>current_button\<close> is \<open>current_button_game\<close>
  here, since the player's field has the same name. \<open>next_subscription\<close> numbers the
  subscription objects the session hands out, \<open>trace\<close> is the list of effects so far.
  The window handle of xdo is not modelled: the lookup is assumed to find the window.
\<close>

record game =
  players :: "(badge_id \<times> PlayerInfo) list"
  current_button_game :: "string option"
  last_button :: "string option"
  press_counter :: int
  save_counter :: int
  next_subscription :: nat
  trace :: "effect list"

datatype error = KeyError

type_synonym result = "(error \<times> game) + game"

text \<open>The state a handler leaves behind, whether it returned or raised.\<close>

fun final :: "result \<Rightarrow> game" where
  "final (Inl (e, s)) = s"
| "final (Inr s) = s"

definition emit :: "effect list \<Rightarrow> game \<Rightarrow> game" where
  "emit es s = s\<lparr>trace := trace s @ es\<rparr>"

text \<open>Python's truth value of an attribute that holds \<^verbatim>\<open>None\<close> or a string.\<close>

fun truthy :: "string option \<Rightarrow> bool" where
  "truthy None = False"
| "truthy (Some b) = (b \<noteq> [])"

subsection \<open>PlayerInfo\<close>

definition new_PlayerInfo :: "badge_id \<Rightarrow> subscription list \<Rightarrow> PlayerInfo" where
  "new_PlayerInfo b subs =
     \<lparr>badge_id = b, current_button = None, start_press_at = 0, selected_light = 0,
      light_settings = [WHITE, WHITE, WHITE, WHITE], subscriptions = subs\<rparr>"

definition on_start_press :: "PlayerInfo \<Rightarrow> int \<Rightarrow> PlayerInfo" where
  "on_start_press p timestamp = p\<lparr>start_press_at := timestamp\<rparr>"

definition start_held :: "PlayerInfo \<Rightarrow> int \<Rightarrow> bool" where
  "start_held p timestamp = (timestamp - start_press_at p > QUIT_TIME)"

subsection \<open>GameComponent\<close>

definition set_lights :: "PlayerInfo \<Rightarrow> effect" where
  "set_lights player = Publish_lights (badge_id player) (light_settings player)"

text \<open>
  \<^verbatim>\<open>push_button\<close>: the two counters, then one key-down or key-up for every entry of
  \<^verbatim>\<open>keycodes\<close>.
\<close>

definition push_button :: "game \<Rightarrow> game" where
  "push_button s =
     (let s1 = s\<lparr>press_counter := press_counter s + 1\<rparr>;
          s2 = (if press_counter s1 > 100 then
                  (let s3 = emit [Search_windows, Keysequence ''Shift+F1'', Print_saved_state]
                              (s1\<lparr>press_counter := 0\<rparr>);
                       s4 = s3\<lparr>save_counter := save_counter s3 + 1\<rparr>
                   in if save_counter s4 > 100
                      then (emit [Keysequence ''Shift+F2''] s4)\<lparr>save_counter := 0\<rparr>
                      else s4)
                else s1)
      in emit (Print_pushing (current_button_game s2) #
               map (\<lambda>(i, k). if Some i = current_button_game s2
                              then Keysequence_down k else Keysequence_up k) keycodes) s2)"

text \<open>
  The first loop of \<^verbatim>\<open>calculate_buttons\<close>: every player whose \<^verbatim>\<open>current_button\<close> is
  truthy adds one to the total of that button; a button that is no key of \<^verbatim>\<open>totals\<close>
  raises \<^verbatim>\<open>KeyError\<close>.
\<close>

fun count_totals :: "(badge_id \<times> PlayerInfo) list \<Rightarrow> (string \<times> int) list
    \<Rightarrow> error + (string \<times> int) list" where
  "count_totals [] totals = Inr totals"
| "count_totals ((i, p) # ps) totals =
     (case current_button p of
        None \<Rightarrow> count_totals ps totals
      | Some b \<Rightarrow>
          if b = [] then count_totals ps totals
          else (case map_of totals b of
                  None \<Rightarrow> Inl KeyError
                | Some c \<Rightarrow> count_totals ps (AList.update b (c + 1) totals)))"

text \<open>The second loop: the running pair \<^verbatim>\<open>(max, max_item)\<close> over the keys of \<^verbatim>\<open>totals\<close>.\<close>

fun find_max :: "(string \<times> int) list \<Rightarrow> int \<times> string option \<Rightarrow> int \<times> string option" where
  "find_max [] acc = acc"
| "find_max ((i, c) # ts) (mx, max_item) =
     (if c > mx then find_max ts (c, Some i) else find_max ts (mx, max_item))"

text \<open>The override by \<^verbatim>\<open>last_button\<close>, with the \<^verbatim>\<open>KeyError\<close> of \<^verbatim>\<open>totals[self.last_button]\<close>.\<close>

definition last_button_override ::
    "(string \<times> int) list \<Rightarrow> string option \<Rightarrow> int \<times> string option \<Rightarrow> error + string option" where
  "last_button_override totals lb acc =
     (case lb of
        None \<Rightarrow> Inr (snd acc)
      | Some b \<Rightarrow>
          if b = [] then Inr (snd acc)
          else (case map_of totals b of
                  None \<Rightarrow> Inl KeyError
                | Some c \<Rightarrow> Inr (if c = fst acc then Some b else snd acc)))"

definition max_item_of :: "game \<Rightarrow> error + string option" where
  "max_item_of s =
     (case count_totals (players s) (map (\<lambda>x. (x, 0)) BUTTONS) of
        Inl e \<Rightarrow> Inl e
      | Inr totals \<Rightarrow> last_button_override totals (last_button s) (find_max totals (0, None)))"

text \<open>The last loop: green lights for the players that hold the decided button, red for the rest.\<close>

definition relight :: "string option \<Rightarrow> PlayerInfo \<Rightarrow> PlayerInfo" where
  "relight d p =
     p\<lparr>light_settings := (if current_button p = d then [GREEN, GREEN, GREEN, GREEN]
                           else [RED, RED, RED, RED])\<rparr>"

definition update_lights :: "game \<Rightarrow> game" where
  "update_lights s =
     (let d = current_button_game s;
          ps = map (\<lambda>(i, p). (i, relight d p)) (players s)
      in emit (map (\<lambda>(i, p). set_lights p) ps) (s\<lparr>players := ps\<rparr>))"

definition calculate_buttons :: "game \<Rightarrow> result" where
  "calculate_buttons s =
     (case max_item_of s of
        Inl e \<Rightarrow> Inl (e, s)
      | Inr max_item \<Rightarrow>
          Inr (update_lights
                 (if max_item \<noteq> current_button_game s
                  then push_button (s\<lparr>current_button_game := max_item\<rparr>)
                  else s)))"

definition kick :: "badge_id \<Rightarrow> game \<Rightarrow> game" where
  "kick b s = emit [Publish_kick GAME_ID b] s"

definition on_button_release :: "string \<Rightarrow> int \<Rightarrow> badge_id \<Rightarrow> game \<Rightarrow> result" where
  "on_button_release button timestamp b s =
     (case map_of (players s) b of
        None \<Rightarrow> Inr (emit [Print_unknown_player b] s)
      | Some player \<Rightarrow>
          (let s1 = (if button = START \<and> start_held player timestamp then kick b s else s)
           in calculate_buttons
                (s1\<lparr>players := AList.update b (player\<lparr>current_button := None\<rparr>) (players s1),
                    last_button := None\<rparr>)))"

definition on_button_press :: "string \<Rightarrow> int \<Rightarrow> badge_id \<Rightarrow> game \<Rightarrow> result" where
  "on_button_press button timestamp b s =
     (case map_of (players s) b of
        None \<Rightarrow> Inr (emit [Print_unknown_player b] s)
      | Some player \<Rightarrow>
          (let p1 = player\<lparr>current_button := Some button\<rparr>;
               p2 = (if button = START then on_start_press p1 timestamp else p1)
           in calculate_buttons
                (s\<lparr>players := AList.update b p2 (players s), last_button := Some button\<rparr>)))"

definition on_player_join :: "badge_id \<Rightarrow> game \<Rightarrow> result" where
  "on_player_join b s =
     (let n = next_subscription s;
          press_sub = Subscription On_button_press b n;
          release_sub = Subscription On_button_release b (n + 1);
          player = new_PlayerInfo b [press_sub, release_sub]
      in Inr (emit [Print_joined b, Subscribe press_sub, Subscribe release_sub, set_lights player]
                (s\<lparr>players := AList.update b player (players s),
                   next_subscription := n + 2\<rparr>)))"

definition on_player_leave :: "badge_id \<Rightarrow> game \<Rightarrow> result" where
  "on_player_leave b s =
     (let s1 = emit [Print_left b] s
      in case map_of (players s1) b of
           None \<Rightarrow> Inl (KeyError, s1)
         | Some player \<Rightarrow>
             (let p1 = player\<lparr>light_settings := [OFF, OFF, OFF, OFF]\<rparr>
              in Inr (emit (map Unsubscribe (subscriptions player) @ [set_lights p1])
                        (s1\<lparr>players := AList.delete b (players s1)\<rparr>))))"

subsection \<open>Events\<close>

text \<open>
  The four topics the component subscribes to, each with the handler it is bound to.
  The session processes one event at a time; a handler that raises leaves the state as
  it was at the raise and the next event is processed from there.
\<close>

datatype event =
    Player_join badge_id
  | Player_leave badge_id
  | Button_press string int badge_id
  | Button_release string int badge_id

fun dispatch :: "event \<Rightarrow> game \<Rightarrow> result" where
  "dispatch (Player_join b) s = on_player_join b s"
| "dispatch (Player_leave b) s = on_player_leave b s"
| "dispatch (Button_press button timestamp b) s = on_button_press button timestamp b s"
| "dispatch (Button_release button timestamp b) s = on_button_release button timestamp b s"

fun run :: "event list \<Rightarrow> game \<Rightarrow> game" where
  "run [] s = s"
| "run (e # es) s = run es (final (dispatch e s))"

text \<open>The class attributes as \<^verbatim>\<open>GameComponent\<close> declares them.\<close>

definition initial :: game where
  "initial =
     \<lparr>players = [], current_button_game = None, last_button = None, press_counter = 0,
      save_counter = 0, next_subscription = 0, trace = []\<rparr>"

section \<open>Specification\<close>

subsection \<open>Observations on traces\<close>

text \<open>The badges of the removal requests (\<^verbatim>\<open>game.kick\<close>) in a trace, in the order published.\<close>

fun kick_requests :: "effect list \<Rightarrow> badge_id list" where
  "kick_requests [] = []"
| "kick_requests (Publish_kick g b # es) = b # kick_requests es"
| "kick_requests (e # es) = kick_requests es"

text \<open>
  The calls of \<^verbatim>\<open>push_button\<close> in a trace: each call prints \<^verbatim>\<open>Pushing ...\<close> once, with the
  decided button.
\<close>

fun pushes :: "effect list \<Rightarrow> string option list" where
  "pushes [] = []"
| "pushes (Print_pushing d # es) = d # pushes es"
| "pushes (e # es) = pushes es"

text \<open>The number of save-state (Shift+F1) and of backup (Shift+F2) key sequences sent so far.\<close>

definition saves :: "game \<Rightarrow> nat" where
  "saves s = count_list (trace s) (Keysequence ''Shift+F1'')"

definition backups :: "game \<Rightarrow> nat" where
  "backups s = count_list (trace s) (Keysequence ''Shift+F2'')"

subsection \<open>Votes\<close>

text \<open>The number of players that hold button \<open>b\<close>.\<close>

definition votes :: "(badge_id \<times> PlayerInfo) list \<Rightarrow> string \<Rightarrow> int" where
  "votes ps b = int (length (filter (\<lambda>(i, p). current_button p = Some b) ps))"

text \<open>
  A button attribute that \<^verbatim>\<open>calculate_buttons\<close> can look up: \<^verbatim>\<open>None\<close>, the empty string
  (both falsy, so never looked up) or one of the eight keys of \<^verbatim>\<open>totals\<close>.
\<close>

fun known :: "string option \<Rightarrow> bool" where
  "known None = True"
| "known (Some b) = (b = [] \<or> b \<in> set BUTTONS)"

text \<open>Button \<open>x\<close> has as many votes as any of the eight buttons.\<close>

definition top_votes :: "(badge_id \<times> PlayerInfo) list \<Rightarrow> string \<Rightarrow> bool" where
  "top_votes ps x = (\<forall>b \<in> set BUTTONS. votes ps b \<le> votes ps x)"

text \<open>
  The first button, in the fixed order of \<open>BUTTONS\<close>, that somebody holds and that has
  the most votes; \<open>None\<close> when nobody holds a button.
\<close>

definition first_top :: "(badge_id \<times> PlayerInfo) list \<Rightarrow> string option" where
  "first_top ps = find (\<lambda>x. 0 < votes ps x \<and> top_votes ps x) BUTTONS"

text \<open>
  The decision in words: \<^verbatim>\<open>last_button\<close> when it is set and no button has more votes,
  else the first button of the fixed order with the most votes.
\<close>

definition decided_spec :: "game \<Rightarrow> string option" where
  "decided_spec s =
     (case last_button s of
        None \<Rightarrow> first_top (players s)
      | Some l \<Rightarrow> if l \<noteq> [] \<and> top_votes (players s) l then Some l else first_top (players s))"

text \<open>
  The same decision with the tie-break of the specification's wording: among the tied
  buttons, the first in the order in which the registry's players hold them.
\<close>

definition registry_order_spec :: "game \<Rightarrow> string option" where
  "registry_order_spec s =
     (let held = List.map_filter (current_button \<circ> snd) (players s);
          first_tied = find (top_votes (players s)) held
      in case last_button s of
           None \<Rightarrow> first_tied
         | Some l \<Rightarrow> if l \<noteq> [] \<and> top_votes (players s) l then Some l else first_tied)"

subsection \<open>Runs of decision changes\<close>

text \<open>
  What \<^verbatim>\<open>calculate_buttons\<close> does to the counters each time the decision changes:
  it stores the new decision and calls \<^verbatim>\<open>push_button\<close>.
\<close>

definition decision_changes :: "string option list \<Rightarrow> game \<Rightarrow> game" where
  "decision_changes ds s = fold (\<lambda>d s. push_button (s\<lparr>current_button_game := d\<rparr>)) ds s"

text \<open>A decision that flips between a and b, \<open>n\<close> times.\<close>

definition flapping :: "nat \<Rightarrow> string option list" where
  "flapping n = map (\<lambda>i. if even i then Some ''a'' else Some ''b'') [0..<n]"

subsection \<open>Concrete states\<close>

text \<open>Badge 1 has joined and pressed start at time 1000.\<close>

definition quit_state :: game where
  "quit_state = run [Player_join 1, Button_press ''start'' 1000 1] initial"

definition quit_player :: PlayerInfo where
  "quit_player =
     \<lparr>badge_id = 1, current_button = Some ''start'', start_press_at = 1000, selected_light = 0,
      light_settings = [GREEN, GREEN, GREEN, GREEN],
      subscriptions = [Subscription On_button_press 1 0, Subscription On_button_release 1 1]\<rparr>"

text \<open>Badge 1 has joined and holds a.\<close>

definition rejoin_state :: game where
  "rejoin_state = run [Player_join 1, Button_press ''a'' 5 1] initial"

definition rejoin_player :: PlayerInfo where
  "rejoin_player =
     \<lparr>badge_id = 1, current_button = Some ''a'', start_press_at = 0, selected_light = 0,
      light_settings = [GREEN, GREEN, GREEN, GREEN],
      subscriptions = [Subscription On_button_press 1 0, Subscription On_button_release 1 1]\<rparr>"

text \<open>
  Three badges; badge 1 holds b, badge 2 holds a, badge 3 has pressed and released up, so
  that \<^verbatim>\<open>last_button\<close> is \<^verbatim>\<open>None\<close> and a and b are tied at one vote each.
\<close>

definition tie_state :: game where
  "tie_state =
     run [Player_join 1, Player_join 2, Player_join 3, Button_press ''b'' 0 1,
          Button_press ''a'' 1 2, Button_press ''up'' 2 3, Button_release ''up'' 3 3] initial"



section \<open>Properties\<close>

subsection \<open>Frames of the helpers\<close>

lemma registered: "map_of ps b = Some p \<Longrightarrow> b \<in> fst ` set ps"
  by (metis map_of_eq_None_iff option.distinct(1))

lemma push_button_frame:
  "players (push_button s) = players s"
  "last_button (push_button s) = last_button s"
  "current_button_game (push_button s) = current_button_game s"
  "next_subscription (push_button s) = next_subscription s"
  by (simp_all add: push_button_def Let_def emit_def)

lemma update_lights_frame:
  "players (update_lights s) = map (\<lambda>(i, p). (i, relight (current_button_game s) p)) (players s)"
  "last_button (update_lights s) = last_button s"
  "current_button_game (update_lights s) = current_button_game s"
  "press_counter (update_lights s) = press_counter s"
  "save_counter (update_lights s) = save_counter s"
  "next_subscription (update_lights s) = next_subscription s"
  by (simp_all add: update_lights_def Let_def emit_def)

lemma last_button_calculate_buttons:
  "last_button (final (calculate_buttons s)) = last_button s"
  by (simp add: calculate_buttons_def push_button_frame update_lights_frame split: sum.splits)

lemma keys_calculate_buttons:
  "map fst (players (final (calculate_buttons s))) = map fst (players s)"
  by (simp add: calculate_buttons_def push_button_frame update_lights_frame comp_def
      case_prod_unfold split: sum.splits)

lemma player_calculate_buttons:
  "map_option (\<lambda>p. p\<lparr>light_settings := []\<rparr>) (map_of (players (final (calculate_buttons s))) b) =
   map_option (\<lambda>p. p\<lparr>light_settings := []\<rparr>) (map_of (players s) b)"
  by (simp add: calculate_buttons_def push_button_frame update_lights_frame map_of_map
      option.map_comp comp_def relight_def split: sum.splits)

text \<open>
  The registry keeps the keys of a dictionary: no handler makes two entries for one badge.
\<close>

lemma distinct_keys_dispatch:
  assumes "distinct (map fst (players s))"
  shows "distinct (map fst (players (final (dispatch e s))))"
proof (cases e)
  case (Player_join b)
  then show ?thesis
    using assms by (simp add: on_player_join_def Let_def emit_def distinct_update)
next
  case (Player_leave b)
  then show ?thesis
    using assms
    by (simp add: on_player_leave_def Let_def emit_def distinct_delete split: option.splits)
next
  case (Button_press button timestamp b)
  then show ?thesis
    using assms
    by (simp add: on_button_press_def Let_def emit_def keys_calculate_buttons distinct_update
        split: option.splits)
next
  case (Button_release button timestamp b)
  then show ?thesis
    using assms
    by (simp add: on_button_release_def Let_def emit_def kick_def keys_calculate_buttons
        distinct_update split: option.splits)
qed

subsection \<open>The recomputation does not read the trace\<close>

lemma max_item_of_trace: "max_item_of (s\<lparr>trace := t\<rparr>) = max_item_of s"
  by (simp add: max_item_of_def cong: sum.case_cong)

lemma same_but_trace:
  "s\<lparr>trace := []\<rparr> = s'\<lparr>trace := []\<rparr> \<Longrightarrow> s' = s\<lparr>trace := trace s'\<rparr>"
  by (cases s, cases s') simp

lemma calculate_buttons_trace:
  "(final (calculate_buttons (s\<lparr>trace := t\<rparr>)))\<lparr>trace := []\<rparr> =
   (final (calculate_buttons s))\<lparr>trace := []\<rparr>"
  by (simp add: calculate_buttons_def max_item_of_trace update_lights_def push_button_def
      Let_def emit_def split: sum.splits)

lemma calculate_buttons_same_but_trace:
  assumes "s\<lparr>trace := []\<rparr> = s'\<lparr>trace := []\<rparr>"
  shows "(final (calculate_buttons s'))\<lparr>trace := []\<rparr> =
         (final (calculate_buttons s))\<lparr>trace := []\<rparr>"
  using same_but_trace [OF assms] calculate_buttons_trace [where s = s and t = "trace s'"]
  by simp

subsection \<open>Removal requests in the trace\<close>

lemma kick_requests_append: "kick_requests (es @ fs) = kick_requests es @ kick_requests fs"
  by (induction es rule: kick_requests.induct) simp_all

lemma kick_requests_lights: "kick_requests (map (\<lambda>x. set_lights (f x)) xs) = []"
  by (induction xs) (simp_all add: set_lights_def)

lemma kick_requests_push_button: "kick_requests (trace (push_button s)) = kick_requests (trace s)"
  by (simp add: push_button_def Let_def emit_def keycodes_def kick_requests_append)

lemma kick_requests_update_lights:
  "kick_requests (trace (update_lights s)) = kick_requests (trace s)"
  by (simp add: update_lights_def Let_def emit_def kick_requests_append kick_requests_lights
      comp_def case_prod_unfold)

lemma kick_requests_calculate_buttons:
  "kick_requests (trace (final (calculate_buttons s))) = kick_requests (trace s)"
  by (simp add: calculate_buttons_def kick_requests_update_lights kick_requests_push_button
      split: sum.splits)

subsection \<open>Counting the votes\<close>

lemma BUTTONS_distinct: "distinct BUTTONS" "[] \<notin> set BUTTONS"
  by (simp_all add: BUTTONS_def)

lemma votes_Nil: "votes [] b = 0"
  by (simp add: votes_def)

lemma votes_Cons:
  "votes ((i, p) # ps) b = (if current_button p = Some b then 1 else 0) + votes ps b"
  by (simp add: votes_def)

lemma votes_nonneg: "0 \<le> votes ps b"
  by (simp add: votes_def)

lemma map_of_tabulate:
  "map_of (map (\<lambda>k. (k, f k)) ks) b = (if b \<in> set ks then Some (f b) else None)"
  by (induction ks) auto

lemma update_tabulate:
  "distinct ks \<Longrightarrow> b \<in> set ks \<Longrightarrow>
   AList.update b v (map (\<lambda>k. (k, f k)) ks) = map (\<lambda>k. (k, (f(b := v)) k)) ks"
  by (induction ks) auto

text \<open>
  The first loop, started on a table over the keys \<open>ks\<close>, adds to each key the number of
  players that hold it, provided every held button is a key.
\<close>

lemma count_totals_votes:
  assumes "distinct ks" and "[] \<notin> set ks"
    and "\<forall>(i, p) \<in> set ps. \<forall>b. current_button p = Some b \<longrightarrow> b = [] \<or> b \<in> set ks"
  shows "count_totals ps (map (\<lambda>k. (k, f k)) ks) = Inr (map (\<lambda>k. (k, f k + votes ps k)) ks)"
  using assms(3)
proof (induction ps arbitrary: f)
  case Nil
  show ?case by (simp add: votes_Nil)
next
  case (Cons ip ps)
  obtain i p where ip: "ip = (i, p)" by (cases ip)
  from Cons.prems
  have rest: "\<forall>(i, p) \<in> set ps. \<forall>b. current_button p = Some b \<longrightarrow> b = [] \<or> b \<in> set ks"
    by simp
  show ?case
  proof (cases "current_button p")
    case None
    then show ?thesis using Cons.IH [OF rest, of f] by (simp add: ip votes_Cons)
  next
    case (Some b)
    show ?thesis
    proof (cases "b = []")
      case True
      have "\<And>k. k \<in> set ks \<Longrightarrow> votes ((i, p) # ps) k = votes ps k"
        using True Some assms(2) by (auto simp: votes_Cons)
      then show ?thesis using Cons.IH [OF rest, of f] True Some by (simp add: ip)
    next
      case False
      then have b: "b \<in> set ks" using Cons.prems Some by (auto simp: ip)
      have "map (\<lambda>k. (k, (f(b := f b + 1)) k + votes ps k)) ks =
            map (\<lambda>k. (k, f k + votes ((i, p) # ps) k)) ks"
        using Some by (auto simp: votes_Cons)
      then show ?thesis
        using Cons.IH [OF rest, of "f(b := f b + 1)"] False Some b assms(1)
        by (simp add: ip map_of_tabulate update_tabulate)
    qed
  qed
qed

lemma known_players:
  assumes "\<forall>(i, p) \<in> set ps. known (current_button p)"
  shows "\<forall>(i, p) \<in> set ps. \<forall>b. current_button p = Some b \<longrightarrow> b = [] \<or> b \<in> set BUTTONS"
  using assms by fastforce

lemma count_totals_BUTTONS:
  assumes "\<forall>(i, p) \<in> set ps. known (current_button p)"
  shows "count_totals ps (map (\<lambda>x. (x, 0)) BUTTONS) = Inr (map (\<lambda>k. (k, votes ps k)) BUTTONS)"
  using count_totals_votes [OF BUTTONS_distinct known_players [OF assms], of "\<lambda>x. 0"] by simp

subsection \<open>The scan for the maximum\<close>

lemma find_max_spec:
  "find_max ts (m, mi) = (M, r) \<Longrightarrow>
     (\<forall>c \<in> snd ` set ts. c \<le> M) \<and>
     ((M = m \<and> r = mi) \<or>
      (m < M \<and> (\<exists>pre k post. ts = pre @ (k, M) # post \<and> r = Some k \<and> (\<forall>c \<in> snd ` set pre. c < M))))"
proof (induction ts arbitrary: m mi)
  case Nil
  then show ?case by simp
next
  case (Cons kc ts)
  obtain k c where kc: "kc = (k, c)" by (cases kc)
  show ?case
  proof (cases "c > m")
    case True
    with Cons.prems have run: "find_max ts (c, Some k) = (M, r)" by (simp add: kc)
    from Cons.IH [OF run] have all: "\<forall>c \<in> snd ` set ts. c \<le> M"
      and alt: "(M = c \<and> r = Some k) \<or>
        (c < M \<and> (\<exists>pre k' post. ts = pre @ (k', M) # post \<and> r = Some k' \<and> (\<forall>c \<in> snd ` set pre. c < M)))"
      by auto
    from alt show ?thesis
    proof
      assume eq: "M = c \<and> r = Some k"
      then have "kc # ts = [] @ (k, M) # ts \<and> r = Some k \<and> (\<forall>c \<in> snd ` set []. c < M)"
        by (simp add: kc)
      then have "\<exists>pre k' post. kc # ts = pre @ (k', M) # post \<and> r = Some k' \<and> (\<forall>c \<in> snd ` set pre. c < M)"
        by blast
      with all eq True show ?thesis by (simp add: kc)
    next
      assume gt: "c < M \<and> (\<exists>pre k' post. ts = pre @ (k', M) # post \<and> r = Some k' \<and> (\<forall>c \<in> snd ` set pre. c < M))"
      then obtain pre k' post where ts: "ts = pre @ (k', M) # post" and r: "r = Some k'"
        and pre: "\<forall>c \<in> snd ` set pre. c < M" by blast
      have "kc # ts = (kc # pre) @ (k', M) # post \<and> r = Some k' \<and> (\<forall>c \<in> snd ` set (kc # pre). c < M)"
        using ts r pre gt by (simp add: kc)
      then have "\<exists>pre k' post. kc # ts = pre @ (k', M) # post \<and> r = Some k' \<and> (\<forall>c \<in> snd ` set pre. c < M)"
        by blast
      with all gt True show ?thesis by (simp add: kc)
    qed
  next
    case False
    with Cons.prems have run: "find_max ts (m, mi) = (M, r)" by (simp add: kc)
    from Cons.IH [OF run] have all: "\<forall>c \<in> snd ` set ts. c \<le> M"
      and alt: "(M = m \<and> r = mi) \<or>
        (m < M \<and> (\<exists>pre k' post. ts = pre @ (k', M) # post \<and> r = Some k' \<and> (\<forall>c \<in> snd ` set pre. c < M)))"
      by auto
    from alt show ?thesis
    proof
      assume "M = m \<and> r = mi"
      with all False show ?thesis by (simp add: kc)
    next
      assume gt: "m < M \<and> (\<exists>pre k' post. ts = pre @ (k', M) # post \<and> r = Some k' \<and> (\<forall>c \<in> snd ` set pre. c < M))"
      then obtain pre k' post where ts: "ts = pre @ (k', M) # post" and r: "r = Some k'"
        and pre: "\<forall>c \<in> snd ` set pre. c < M" by blast
      have "kc # ts = (kc # pre) @ (k', M) # post \<and> r = Some k' \<and> (\<forall>c \<in> snd ` set (kc # pre). c < M)"
        using ts r pre gt False by (simp add: kc)
      then have "\<exists>pre k' post. kc # ts = pre @ (k', M) # post \<and> r = Some k' \<and> (\<forall>c \<in> snd ` set pre. c < M)"
        by blast
      with all gt False show ?thesis by (simp add: kc)
    qed
  qed
qed

lemma find_first: "P x \<Longrightarrow> \<forall>y \<in> set xs. \<not> P y \<Longrightarrow> find P (xs @ x # ys) = Some x"
  by (induction xs) simp_all

lemma find_max_votes:
  assumes "find_max (map (\<lambda>k. (k, votes ps k)) ks) (0, None) = (M, r)"
  shows "r = find (\<lambda>x. 0 < votes ps x \<and> (\<forall>b \<in> set ks. votes ps b \<le> votes ps x)) ks"
    and "\<forall>b \<in> set ks. votes ps b \<le> M"
    and "ks \<noteq> [] \<Longrightarrow> \<exists>b \<in> set ks. votes ps b = M"
proof -
  let ?ts = "map (\<lambda>k. (k, votes ps k)) ks"
  let ?P = "\<lambda>x. 0 < votes ps x \<and> (\<forall>b \<in> set ks. votes ps b \<le> votes ps x)"
  from find_max_spec [OF assms] have le: "\<forall>c \<in> snd ` set ?ts. c \<le> M"
    and alt: "(M = 0 \<and> r = None) \<or>
      (0 < M \<and> (\<exists>pre k post. ?ts = pre @ (k, M) # post \<and> r = Some k \<and> (\<forall>c \<in> snd ` set pre. c < M)))"
    by auto
  from le show all: "\<forall>b \<in> set ks. votes ps b \<le> M" by force
  from alt show "r = find ?P ks"
  proof
    assume zero: "M = 0 \<and> r = None"
    with all have "\<forall>x \<in> set ks. \<not> ?P x" by force
    then have "find ?P ks = None" by (simp add: find_None_iff)
    with zero show ?thesis by simp
  next
    assume "0 < M \<and> (\<exists>pre k post. ?ts = pre @ (k, M) # post \<and> r = Some k \<and> (\<forall>c \<in> snd ` set pre. c < M))"
    then obtain pre k post where pos: "0 < M" and ts: "?ts = pre @ (k, M) # post" and r: "r = Some k"
      and pre: "\<forall>c \<in> snd ` set pre. c < M" by blast
    from ts have "map fst ?ts = map fst (pre @ (k, M) # post)" by simp
    then have ks: "ks = map fst pre @ k # map fst post" by (simp add: comp_def)
    have "(k, M) \<in> set ?ts" using ts by simp
    then have kM: "votes ps k = M" by auto
    have "\<forall>y \<in> set (map fst pre). \<not> ?P y"
    proof
      fix y assume "y \<in> set (map fst pre)"
      then obtain c where yc: "(y, c) \<in> set pre" by auto
      then have "(y, c) \<in> set ?ts" using ts by simp
      then have "c = votes ps y" by auto
      moreover have "c < M" using pre yc by force
      moreover have "k \<in> set ks" using ks by simp
      ultimately show "\<not> ?P y" using kM by force
    qed
    moreover have "?P k" using pos kM all by simp
    ultimately have "find ?P (map fst pre @ k # map fst post) = Some k"
      using find_first [of ?P k "map fst pre" "map fst post"] by blast
    with ks r show ?thesis by simp
  qed
  show "\<exists>b \<in> set ks. votes ps b = M" if ne: "ks \<noteq> []"
    using alt
  proof
    assume "M = 0 \<and> r = None"
    moreover obtain b where b: "b \<in> set ks" using ne by (cases ks) auto
    moreover have "0 \<le> votes ps b" by (rule votes_nonneg)
    ultimately have "votes ps b = M" using all by force
    with b show ?thesis by blast
  next
    assume "0 < M \<and> (\<exists>pre k post. ?ts = pre @ (k, M) # post \<and> r = Some k \<and> (\<forall>c \<in> snd ` set pre. c < M))"
    then obtain pre k post where ts: "?ts = pre @ (k, M) # post" by blast
    then have "(k, M) \<in> set ?ts" by simp
    then show ?thesis by auto
  qed
qed

lemma max_item_of_decided_spec:
  assumes "\<forall>(i, p) \<in> set (players s). known (current_button p)" and "known (last_button s)"
  shows "max_item_of s = Inr (decided_spec s)"
proof -
  let ?ps = "players s"
  let ?ts = "map (\<lambda>k. (k, votes ?ps k)) BUTTONS"
  obtain M r where fm: "find_max ?ts (0, None) = (M, r)" by (cases "find_max ?ts (0, None)")
  have r: "r = first_top ?ps"
    using find_max_votes(1) [OF fm] by (simp add: first_top_def top_votes_def)
  have le: "\<forall>b \<in> set BUTTONS. votes ?ps b \<le> M" by (rule find_max_votes(2) [OF fm])
  have "BUTTONS \<noteq> []" by (simp add: BUTTONS_def)
  from find_max_votes(3) [OF fm this] obtain k where k: "k \<in> set BUTTONS" "votes ?ps k = M"
    by blast
  have top: "top_votes ?ps l \<longleftrightarrow> votes ?ps l = M" if "l \<in> set BUTTONS" for l
  proof
    assume "top_votes ?ps l"
    then have "M \<le> votes ?ps l" using k by (auto simp: top_votes_def)
    with le that show "votes ?ps l = M" by force
  next
    assume "votes ?ps l = M"
    with le show "top_votes ?ps l" by (simp add: top_votes_def)
  qed
  have "last_button_override ?ts (last_button s) (M, r) = Inr (decided_spec s)"
  proof (cases "last_button s")
    case None
    then show ?thesis by (simp add: last_button_override_def decided_spec_def r)
  next
    case (Some l)
    show ?thesis
    proof (cases "l = []")
      case True
      with Some show ?thesis by (simp add: last_button_override_def decided_spec_def r)
    next
      case False
      with Some assms(2) have l: "l \<in> set BUTTONS" by simp
      with Some False top [OF l] show ?thesis
        by (simp add: last_button_override_def decided_spec_def r map_of_tabulate)
    qed
  qed
  then show ?thesis
    by (simp add: max_item_of_def count_totals_BUTTONS [OF assms(1)] fm)
qed

lemma decided_after_calculate_buttons:
  "max_item_of s = Inr d \<Longrightarrow>
   \<not> isl (calculate_buttons s) \<and> current_button_game (final (calculate_buttons s)) = d"
  by (simp add: calculate_buttons_def update_lights_def push_button_def Let_def emit_def)

subsection \<open>The decision\<close>

lemma tie_state_known:
  "\<forall>(i, p) \<in> set (players tie_state). known (current_button p)" "known (last_button tie_state)"
  by code_simp+

text \<open>
  C1, as the code has it. When every held button and \<^verbatim>\<open>last_button\<close> are \<^verbatim>\<open>None\<close>, empty or
  one of the eight buttons, the recomputation returns and the decided button is
  \<^verbatim>\<open>last_button\<close> if that is set and no button has more votes, and otherwise the first
  button in the fixed order up, down, left, right, select, start, a, b that has the
  most votes and at least one, or \<^verbatim>\<open>None\<close> if nobody holds a button. The tie is broken by
  the order of the keys of \<^verbatim>\<open>totals\<close>, not by the order of the players in the registry.
\<close>

theorem calculate_buttons_decides:
  assumes "\<forall>(i, p) \<in> set (players s). known (current_button p)" and "known (last_button s)"
  shows "\<not> isl (calculate_buttons s)
       \<and> current_button_game (final (calculate_buttons s)) = decided_spec s"
  using decided_after_calculate_buttons [OF max_item_of_decided_spec [OF assms]] .

theorem calculate_buttons_decides_witness:
  "list_all (known \<circ> current_button \<circ> snd) (players tie_state) \<and> known (last_button tie_state)
   \<and> \<not> isl (calculate_buttons tie_state)
   \<and> current_button_game (final (calculate_buttons tie_state)) = Some ''a''"
proof -
  have "decided_spec tie_state = Some ''a''" by code_simp
  moreover have "list_all (known \<circ> current_button \<circ> snd) (players tie_state)" by code_simp
  ultimately show ?thesis
    using calculate_buttons_decides [OF tie_state_known] tie_state_known by simp
qed

text \<open>
  With badge 1 holding b, badge 2 holding a and no \<^verbatim>\<open>last_button\<close>, the first tied button
  in registry order is b, and the code decides a.
\<close>

theorem registry_order_counterexample:
  "map (current_button \<circ> snd) (players tie_state) = [Some ''b'', Some ''a'', None]
   \<and> last_button tie_state = None
   \<and> votes (players tie_state) ''b'' = 1 \<and> votes (players tie_state) ''a'' = 1
   \<and> registry_order_spec tie_state = Some ''b''
   \<and> current_button_game (final (calculate_buttons tie_state)) = Some ''a''"
  by code_simp

subsection \<open>The empty registry\<close>

lemma first_top_Nil: "first_top [] = None"
  by (simp add: first_top_def votes_Nil find_None_iff)

lemma top_votes_Nil: "top_votes [] b"
  by (simp add: top_votes_def votes_Nil)

text \<open>
  C2, as the code has it. With no player registered the recomputation returns; the
  decided button becomes \<^verbatim>\<open>None\<close> if \<^verbatim>\<open>last_button\<close> is \<^verbatim>\<open>None\<close> or empty, and becomes
  \<^verbatim>\<open>last_button\<close> if that is one of the eight buttons, whose zero votes equal the maximum.
\<close>

theorem empty_registry_decides:
  assumes "players s = []"
  shows "(\<not> truthy (last_button s) \<longrightarrow>
           \<not> isl (calculate_buttons s) \<and> current_button_game (final (calculate_buttons s)) = None)
       \<and> (\<forall>b \<in> set BUTTONS. last_button s = Some b \<longrightarrow>
           \<not> isl (calculate_buttons s) \<and> current_button_game (final (calculate_buttons s)) = Some b)"
proof (intro conjI impI ballI)
  have ps: "\<forall>(i, p) \<in> set (players s). known (current_button p)" using assms by simp
  {
    assume falsy: "\<not> truthy (last_button s)"
    then have "known (last_button s)" by (cases "last_button s") simp_all
    from max_item_of_decided_spec [OF ps this] have "max_item_of s = Inr None"
      using falsy by (cases "last_button s") (simp_all add: decided_spec_def assms first_top_Nil)
    from decided_after_calculate_buttons [OF this]
    show "\<not> isl (calculate_buttons s)"
      and "current_button_game (final (calculate_buttons s)) = None" by simp_all
  }
  {
    fix b assume b: "b \<in> set BUTTONS" and last: "last_button s = Some b"
    then have ne: "b \<noteq> []" using BUTTONS_distinct(2) by auto
    have "known (last_button s)" using b last by simp
    from max_item_of_decided_spec [OF ps this] have "max_item_of s = Inr (Some b)"
      using last ne by (simp add: decided_spec_def assms top_votes_Nil)
    from decided_after_calculate_buttons [OF this]
    show "\<not> isl (calculate_buttons s)"
      and "current_button_game (final (calculate_buttons s)) = Some b" by simp_all
  }
qed

theorem empty_registry_decides_witness:
  "players initial = [] \<and> \<not> truthy (last_button initial)
   \<and> current_button_game (final (calculate_buttons initial)) = None
   \<and> ''a'' \<in> set BUTTONS
   \<and> current_button_game (final (calculate_buttons (initial\<lparr>last_button := Some ''a''\<rparr>))) = Some ''a''"
proof -
  have a: "''a'' \<in> set BUTTONS" by code_simp
  have i: "players initial = []" "\<not> truthy (last_button initial)"
    "players (initial\<lparr>last_button := Some ''a''\<rparr>) = []"
    "last_button (initial\<lparr>last_button := Some ''a''\<rparr>) = Some ''a''"
    by (simp_all add: initial_def)
  from empty_registry_decides [OF i(1)] empty_registry_decides [OF i(3)] a i
  show ?thesis by blast
qed

text \<open>With no player registered and \<^verbatim>\<open>last_button\<close> set to a, the code decides a.\<close>

theorem empty_registry_counterexample:
  "players (initial\<lparr>last_button := Some ''a''\<rparr>) = []
   \<and> current_button_game (final (calculate_buttons (initial\<lparr>last_button := Some ''a''\<rparr>))) = Some ''a''"
  by code_simp

subsection \<open>Recomputing twice\<close>

lemma pushes_append: "pushes (es @ fs) = pushes es @ pushes fs"
  by (induction es rule: pushes.induct) simp_all

lemma pushes_lights: "pushes (map (\<lambda>x. set_lights (f x)) xs) = []"
  by (induction xs) (simp_all add: set_lights_def)

lemma pushes_update_lights: "pushes (trace (update_lights s)) = pushes (trace s)"
  by (simp add: update_lights_def Let_def emit_def pushes_append pushes_lights comp_def
      case_prod_unfold)

lemma count_totals_relight:
  "count_totals (map (\<lambda>(i, p). (i, relight d p)) ps) totals = count_totals ps totals"
  by (induction ps totals rule: count_totals.induct)
     (simp_all add: relight_def split: option.splits)

lemma max_item_of_update_lights: "max_item_of (update_lights s) = max_item_of s"
  by (simp add: max_item_of_def update_lights_frame count_totals_relight cong: sum.case_cong)

lemma max_item_of_push_button:
  "max_item_of (push_button (s\<lparr>current_button_game := d\<rparr>)) = max_item_of s"
  by (simp add: max_item_of_def push_button_frame cong: sum.case_cong)

lemma relight_relight: "relight d (relight d p) = relight d p"
  by (simp add: relight_def)

lemma update_lights_twice:
  "(update_lights (update_lights s))\<lparr>trace := trace (update_lights s)\<rparr> = update_lights s"
  by (simp add: update_lights_def Let_def emit_def comp_def case_prod_unfold relight_relight)

lemma calculate_buttons_again:
  assumes "max_item_of s = Inr d" and "current_button_game s = d"
  shows "calculate_buttons (update_lights s) = Inr (update_lights (update_lights s))"
  using assms
  by (simp add: calculate_buttons_def max_item_of_update_lights update_lights_frame)

text \<open>
  A second run directly on the state the first run left raises exactly if the first run
  raised and changes nothing of the state but the trace.
\<close>

lemma calculate_buttons_twice:
  "isl (calculate_buttons (final (calculate_buttons s))) = isl (calculate_buttons s)
   \<and> (final (calculate_buttons (final (calculate_buttons s))))
        \<lparr>trace := trace (final (calculate_buttons s))\<rparr> = final (calculate_buttons s)
   \<and> pushes (trace (final (calculate_buttons (final (calculate_buttons s))))) =
       pushes (trace (final (calculate_buttons s)))"
proof (cases "max_item_of s")
  case (Inl e)
  then have "calculate_buttons s = Inl (e, s)" by (simp add: calculate_buttons_def)
  then show ?thesis by simp
next
  case (Inr d)
  let ?s0 = "if d \<noteq> current_button_game s then push_button (s\<lparr>current_button_game := d\<rparr>) else s"
  have first: "calculate_buttons s = Inr (update_lights ?s0)"
    using Inr by (simp add: calculate_buttons_def)
  have "max_item_of ?s0 = Inr d" using Inr by (simp add: max_item_of_push_button)
  moreover have "current_button_game ?s0 = d" by (simp add: push_button_frame)
  ultimately have "calculate_buttons (update_lights ?s0) = Inr (update_lights (update_lights ?s0))"
    by (rule calculate_buttons_again)
  with first show ?thesis
    by (simp add: update_lights_twice pushes_update_lights)
qed









subsection \<open>The quit hold\<close>

lemma quit_state_player: "map_of (players quit_state) 1 = Some quit_player"
  by code_simp

text \<open>
  C4. When a registered player releases the start button, one removal request for that
  player is published if the release timestamp minus the recorded start-press timestamp
  is more than 1500, and none otherwise; so a hold of exactly 1500 ms does not kick and
  a hold of 1501 ms does.
\<close>

theorem quit_release_kicks_iff:
  assumes "map_of (players s) b = Some player"
  shows "kick_requests (trace (final (on_button_release START timestamp b s))) =
         kick_requests (trace s) @ (if timestamp - start_press_at player > 1500 then [b] else [])"
  using assms
  by (simp add: on_button_release_def Let_def kick_requests_calculate_buttons kick_def emit_def
      kick_requests_append start_held_def QUIT_TIME_def)

theorem quit_release_kicks_iff_witness:
  "map_of (players quit_state) 1 = Some quit_player
   \<and> kick_requests (trace (final (on_button_release START 2500 1 quit_state))) =
       kick_requests (trace quit_state)
   \<and> kick_requests (trace (final (on_button_release START 2501 1 quit_state))) =
       kick_requests (trace quit_state) @ [1]"
  using quit_release_kicks_iff [OF quit_state_player, of 2500]
    quit_release_kicks_iff [OF quit_state_player, of 2501] quit_state_player
  by (simp add: quit_player_def)

text \<open>
  C10. \<^verbatim>\<open>kick\<close> changes nothing but the trace, to which it adds the removal request. After
  a release of start that kicks, the registry has the same badges in the same order, the
  kicked player is still registered with its fields as they were apart from the cleared
  \<^verbatim>\<open>current_button\<close> (and the lights the recomputation sets), \<^verbatim>\<open>last_button\<close> is \<^verbatim>\<open>None\<close>, and
  the state is, apart from the trace, the one that the release processing without a kick
  produces.
\<close>

theorem kick_only_publishes:
  assumes "map_of (players s) b = Some player" and "start_held player timestamp"
  shows "kick b s = s\<lparr>trace := trace s @ [Publish_kick GAME_ID b]\<rparr>
    \<and> map fst (players (final (on_button_release START timestamp b s))) = map fst (players s)
    \<and> map_option (\<lambda>p. p\<lparr>light_settings := []\<rparr>)
         (map_of (players (final (on_button_release START timestamp b s))) b) =
       Some (player\<lparr>current_button := None, light_settings := []\<rparr>)
    \<and> last_button (final (on_button_release START timestamp b s)) = None
    \<and> (final (on_button_release START timestamp b s))\<lparr>trace := []\<rparr> =
       (final (calculate_buttons
          (s\<lparr>players := AList.update b (player\<lparr>current_button := None\<rparr>) (players s),
             last_button := None\<rparr>)))\<lparr>trace := []\<rparr>"
proof -
  have rel: "on_button_release START timestamp b s =
      calculate_buttons ((s\<lparr>trace := trace s @ [Publish_kick GAME_ID b]\<rparr>)
         \<lparr>players := AList.update b (player\<lparr>current_button := None\<rparr>) (players s),
          last_button := None\<rparr>)"
    using assms by (simp add: on_button_release_def kick_def emit_def)
  have keys: "map fst (AList.update b (player\<lparr>current_button := None\<rparr>) (players s)) =
      map fst (players s)"
    using registered [OF assms(1)] by (simp add: update_keys)
  show ?thesis
    unfolding rel
    apply (intro conjI)
    subgoal by (simp add: kick_def emit_def)
    subgoal using keys by (simp add: keys_calculate_buttons)
    subgoal by (simp add: player_calculate_buttons update_conv')
    subgoal by (simp add: last_button_calculate_buttons)
    subgoal by (rule calculate_buttons_same_but_trace) simp
    done
qed

theorem kick_only_publishes_witness:
  "map_of (players quit_state) 1 = Some quit_player \<and> start_held quit_player 2501
   \<and> kick 1 quit_state = quit_state\<lparr>trace := trace quit_state @ [Publish_kick GAME_ID 1]\<rparr>
   \<and> map fst (players (final (on_button_release START 2501 1 quit_state))) = [1]
   \<and> last_button (final (on_button_release START 2501 1 quit_state)) = None"
proof -
  have held: "start_held quit_player 2501" by code_simp
  have keys: "map fst (players quit_state) = [1]" by code_simp
  from kick_only_publishes [OF quit_state_player held] quit_state_player held keys
  show ?thesis by simp
qed

subsection \<open>Events for a badge that is not registered\<close>

lemma on_button_press_unknown:
  "map_of (players s) b = None \<Longrightarrow>
   on_button_press button timestamp b s = Inr (s\<lparr>trace := trace s @ [Print_unknown_player b]\<rparr>)"
  by (simp add: on_button_press_def emit_def)

lemma on_button_release_unknown:
  "map_of (players s) b = None \<Longrightarrow>
   on_button_release button timestamp b s = Inr (s\<lparr>trace := trace s @ [Print_unknown_player b]\<rparr>)"
  by (simp add: on_button_release_def emit_def)

lemma on_player_leave_unknown:
  "map_of (players s) b = None \<Longrightarrow>
   on_player_leave b s = Inl (KeyError, s\<lparr>trace := trace s @ [Print_left b]\<rparr>)"
  by (simp add: on_player_leave_def emit_def)

text \<open>
  C5. A press or a release for a badge that is not registered is printed and dropped, but
  a leave for such a badge raises: with no player registered, \<^verbatim>\<open>on_player_leave(7)\<close> prints
  and then fails with \<^verbatim>\<open>KeyError\<close> at \<^verbatim>\<open>self.players[badge_id]\<close>, the registry and the other
  attributes being as before.
\<close>

theorem on_player_leave_unknown_raises:
  "on_player_leave 7 initial = Inl (KeyError, initial\<lparr>trace := [Print_left 7]\<rparr>)"
  by (simp add: on_player_leave_def initial_def emit_def)

subsection \<open>Joining twice\<close>

lemma rejoin_state_player: "map_of (players rejoin_state) 1 = Some rejoin_player"
  by code_simp

lemma rejoin_state_fields:
  "next_subscription rejoin_state = 2" "map fst (players rejoin_state) = [1]"
  by code_simp+

text \<open>
  C6, as the code has it. A join for a badge that is already registered is not rejected:
  the handler returns. The registry keeps one entry per badge, in the same order, the
  entries of all other badges are untouched, and the decided button, \<^verbatim>\<open>last_button\<close> and
  both counters are as before. Nothing is said here about the subscriptions and the
  entry of the badge itself.
\<close>

theorem rejoin_keeps_one_entry:
  assumes "map_of (players s) b = Some player"
  shows "\<not> isl (on_player_join b s)
    \<and> map fst (players (final (on_player_join b s))) = map fst (players s)
    \<and> AList.delete b (players (final (on_player_join b s))) = AList.delete b (players s)
    \<and> current_button_game (final (on_player_join b s)) = current_button_game s
    \<and> last_button (final (on_player_join b s)) = last_button s
    \<and> press_counter (final (on_player_join b s)) = press_counter s
    \<and> save_counter (final (on_player_join b s)) = save_counter s"
  using registered [OF assms]
  by (simp add: on_player_join_def Let_def emit_def update_keys delete_update_same)

theorem rejoin_keeps_one_entry_witness:
  "map_of (players rejoin_state) 1 = Some rejoin_player
    \<and> \<not> isl (on_player_join 1 rejoin_state)
    \<and> map fst (players (final (on_player_join 1 rejoin_state))) = [1]
    \<and> current_button_game (final (on_player_join 1 rejoin_state)) = Some ''a''"
proof -
  have "current_button_game rejoin_state = Some ''a''" by code_simp
  with rejoin_keeps_one_entry [OF rejoin_state_player] rejoin_state_player show ?thesis
    by (simp add: rejoin_state_fields)
qed

text \<open>
  Badge 1 holds a and joins again: the join returns, the held button is gone, and a
  second pair of subscriptions has been made.
\<close>

theorem rejoin_not_rejected_counterexample:
  "\<not> isl (on_player_join 1 rejoin_state)
   \<and> map_option current_button (map_of (players rejoin_state) 1) = Some (Some ''a'')
   \<and> map_option current_button (map_of (players (final (on_player_join 1 rejoin_state))) 1) =
       Some None
   \<and> drop (length (trace rejoin_state)) (trace (final (on_player_join 1 rejoin_state))) =
       [Print_joined 1, Subscribe (Subscription On_button_press 1 2),
        Subscribe (Subscription On_button_release 1 3),
        Publish_lights 1 [WHITE, WHITE, WHITE, WHITE]]"
  by code_simp

subsection \<open>Leaving while holding a button\<close>

text \<open>
  C7, as the code has it. A leave of a registered player returns, unsubscribes the
  player's subscriptions, switches its lights off and deletes it from the registry. It
  does not recompute: the decided button, \<^verbatim>\<open>last_button\<close> and both counters are as before,
  and \<^verbatim>\<open>push_button\<close> is not called.
\<close>

theorem leave_removes_without_recomputation:
  assumes "map_of (players s) b = Some player"
  shows "\<not> isl (on_player_leave b s)
    \<and> players (final (on_player_leave b s)) = AList.delete b (players s)
    \<and> map_of (players (final (on_player_leave b s))) b = None
    \<and> current_button_game (final (on_player_leave b s)) = current_button_game s
    \<and> last_button (final (on_player_leave b s)) = last_button s
    \<and> press_counter (final (on_player_leave b s)) = press_counter s
    \<and> save_counter (final (on_player_leave b s)) = save_counter s
    \<and> trace (final (on_player_leave b s)) =
        trace s @ Print_left b # map Unsubscribe (subscriptions player) @
          [Publish_lights (badge_id player) [OFF, OFF, OFF, OFF]]"
  using assms
  by (simp add: on_player_leave_def Let_def emit_def set_lights_def delete_conv')

theorem leave_removes_without_recomputation_witness:
  "map_of (players rejoin_state) 1 = Some rejoin_player
   \<and> players (final (on_player_leave 1 rejoin_state)) = AList.delete 1 (players rejoin_state)
   \<and> current_button_game (final (on_player_leave 1 rejoin_state)) =
       current_button_game rejoin_state"
  using leave_removes_without_recomputation [OF rejoin_state_player] rejoin_state_player
  by simp

text \<open>
  Badge 1, the only player, holds a and a is decided. After its leave the registry is
  empty and a is still decided, where a release of a would have decided \<^verbatim>\<open>None\<close>.
\<close>

theorem leave_mid_hold_counterexample:
  "map_option current_button (map_of (players rejoin_state) 1) = Some (Some ''a'')
   \<and> current_button_game rejoin_state = Some ''a''
   \<and> players (final (on_player_leave 1 rejoin_state)) = []
   \<and> current_button_game (final (on_player_leave 1 rejoin_state)) = Some ''a''
   \<and> current_button_game (final (on_button_release ''a'' 6 1 rejoin_state)) = None"
  by code_simp

subsection \<open>The checkpoint counters\<close>

lemma count_list_keys:
  "count_list (map (\<lambda>(i, k). if Some i = d then Keysequence_down k else Keysequence_up k) keycodes)
     (Keysequence x) = 0"
  by (simp add: keycodes_def)

lemma push_button_below:
  assumes "press_counter s < 100"
  shows "press_counter (push_button (s\<lparr>current_button_game := d\<rparr>)) = press_counter s + 1"
    and "save_counter (push_button (s\<lparr>current_button_game := d\<rparr>)) = save_counter s"
    and "saves (push_button (s\<lparr>current_button_game := d\<rparr>)) = saves s"
    and "backups (push_button (s\<lparr>current_button_game := d\<rparr>)) = backups s"
  using assms
  by (simp_all add: push_button_def Let_def emit_def saves_def backups_def count_list_keys)

lemma push_button_at:
  assumes "press_counter s = 100"
  shows "press_counter (push_button (s\<lparr>current_button_game := d\<rparr>)) = 0"
    and "saves (push_button (s\<lparr>current_button_game := d\<rparr>)) = saves s + 1"
    and "save_counter (push_button (s\<lparr>current_button_game := d\<rparr>)) =
           (if save_counter s < 100 then save_counter s + 1 else 0)"
    and "backups (push_button (s\<lparr>current_button_game := d\<rparr>)) =
           (if save_counter s < 100 then backups s else backups s + 1)"
  using assms
  by (simp_all add: push_button_def Let_def emit_def saves_def backups_def count_list_keys)

lemma decision_changes_Nil: "decision_changes [] s = s"
  by (simp add: decision_changes_def)

lemma decision_changes_Cons:
  "decision_changes (d # ds) s = decision_changes ds (push_button (s\<lparr>current_button_game := d\<rparr>))"
  by (simp add: decision_changes_def)

lemma decision_changes_append:
  "decision_changes (ds @ es) s = decision_changes es (decision_changes ds s)"
  by (simp add: decision_changes_def)

text \<open>While the press counter stays at or below 100, nothing is saved.\<close>

lemma decision_changes_below:
  "press_counter s + int (length ds) \<le> 100 \<Longrightarrow>
   press_counter (decision_changes ds s) = press_counter s + int (length ds)
   \<and> save_counter (decision_changes ds s) = save_counter s
   \<and> saves (decision_changes ds s) = saves s
   \<and> backups (decision_changes ds s) = backups s"
proof (induction ds arbitrary: s)
  case Nil
  show ?case by (simp add: decision_changes_Nil)
next
  case (Cons d ds)
  let ?s = "push_button (s\<lparr>current_button_game := d\<rparr>)"
  from Cons.prems have lt: "press_counter s < 100" by simp
  from Cons.prems have "press_counter ?s + int (length ds) \<le> 100"
    by (simp add: push_button_below(1) [OF lt])
  from Cons.IH [OF this] show ?case
    by (simp add: decision_changes_Cons push_button_below [OF lt])
qed

text \<open>One full cycle of the press counter takes 101 decision changes.\<close>

lemma decision_changes_cycle:
  assumes "press_counter s = 0" and "length ds = 101"
  shows "press_counter (decision_changes ds s) = 0"
    and "saves (decision_changes ds s) = saves s + 1"
    and "save_counter (decision_changes ds s) = (if save_counter s < 100 then save_counter s + 1 else 0)"
    and "backups (decision_changes ds s) = (if save_counter s < 100 then backups s else backups s + 1)"
proof -
  obtain es d where ds: "ds = es @ [d]" and es: "length es = 100"
    using assms(2) by (cases ds rule: rev_cases) auto
  have "press_counter s + int (length es) \<le> 100" using assms(1) es by simp
  from decision_changes_below [OF this]
  have mid: "press_counter (decision_changes es s) = 100"
    "save_counter (decision_changes es s) = save_counter s"
    "saves (decision_changes es s) = saves s" "backups (decision_changes es s) = backups s"
    using assms(1) es by simp_all
  show "press_counter (decision_changes ds s) = 0"
    and "saves (decision_changes ds s) = saves s + 1"
    and "save_counter (decision_changes ds s) = (if save_counter s < 100 then save_counter s + 1 else 0)"
    and "backups (decision_changes ds s) = (if save_counter s < 100 then backups s else backups s + 1)"
    using push_button_at [OF mid(1), of d] mid
    by (simp_all add: ds decision_changes_append decision_changes_Cons decision_changes_Nil)
qed

lemma decision_changes_cycles:
  "press_counter s = 0 \<Longrightarrow> length ds = 101 * k \<Longrightarrow> save_counter s + int k \<le> 100 \<Longrightarrow>
   press_counter (decision_changes ds s) = 0
   \<and> save_counter (decision_changes ds s) = save_counter s + int k
   \<and> saves (decision_changes ds s) = saves s + k
   \<and> backups (decision_changes ds s) = backups s"
proof (induction k arbitrary: s ds)
  case 0
  then show ?case by (simp add: decision_changes_Nil)
next
  case (Suc k)
  let ?a = "take 101 ds" and ?b = "drop 101 ds"
  let ?s = "decision_changes ?a s"
  have la: "length ?a = 101" and lb: "length ?b = 101 * k" using Suc.prems(2) by simp_all
  have lt: "save_counter s < 100" using Suc.prems(3) by simp
  note c = decision_changes_cycle [OF Suc.prems(1) la]
  have "save_counter ?s + int k \<le> 100" using Suc.prems(3) lt by (simp add: c(3))
  from Suc.IH [OF c(1) lb this] have
    "press_counter (decision_changes ?b ?s) = 0
     \<and> save_counter (decision_changes ?b ?s) = save_counter s + int (Suc k)
     \<and> saves (decision_changes ?b ?s) = saves s + Suc k
     \<and> backups (decision_changes ?b ?s) = backups s"
    using lt by (simp add: c)
  moreover have "decision_changes ds s = decision_changes ?b ?s"
    using decision_changes_append [of ?a ?b s] by simp
  ultimately show ?case by simp
qed

text \<open>
  C8, as the code has it. The counters fire when they exceed 100. From a press counter of
  zero, 100 decision changes save nothing and leave the counter at 100; the 101st saves
  once and resets it to zero. From a save counter of zero as well, 100 such cycles
  (10100 decision changes) make 100 saves and no backup and leave the save counter at
  100; the 101st cycle makes the one backup and resets the save counter to zero.
\<close>

theorem checkpoint_after_101_changes:
  assumes "press_counter s = 0" and "save_counter s = 0"
    and "length ds = 100" and "length es = 101 * 100" and "length fs = 101"
  shows "press_counter (decision_changes ds s) = 100
       \<and> saves (decision_changes ds s) = saves s
       \<and> press_counter (decision_changes (ds @ [d]) s) = 0
       \<and> saves (decision_changes (ds @ [d]) s) = saves s + 1
       \<and> press_counter (decision_changes es s) = 0
       \<and> save_counter (decision_changes es s) = 100
       \<and> saves (decision_changes es s) = saves s + 100
       \<and> backups (decision_changes es s) = backups s
       \<and> press_counter (decision_changes (es @ fs) s) = 0
       \<and> save_counter (decision_changes (es @ fs) s) = 0
       \<and> saves (decision_changes (es @ fs) s) = saves s + 101
       \<and> backups (decision_changes (es @ fs) s) = backups s + 1"
proof -
  have "press_counter s + int (length ds) \<le> 100" using assms by simp
  from decision_changes_below [OF this] have first: "press_counter (decision_changes ds s) = 100"
    "saves (decision_changes ds s) = saves s"
    using assms by simp_all
  have "length (ds @ [d]) = 101" using assms(3) by simp
  note second = decision_changes_cycle(1,2) [OF assms(1) this]
  have "save_counter s + int 100 \<le> 100" using assms(2) by simp
  from decision_changes_cycles [OF assms(1) assms(4) this]
  have third: "press_counter (decision_changes es s) = 0"
    "save_counter (decision_changes es s) = 100"
    "saves (decision_changes es s) = saves s + 100"
    "backups (decision_changes es s) = backups s"
    using assms(2) by simp_all
  note fourth = decision_changes_cycle [OF third(1) assms(5)]
  show ?thesis
    using first second third fourth by (simp add: decision_changes_append)
qed

theorem checkpoint_after_101_changes_witness:
  "press_counter initial = 0 \<and> save_counter initial = 0
   \<and> length (flapping 100) = 100 \<and> length (flapping 10100) = 101 * 100
   \<and> length (flapping 101) = 101
   \<and> saves (decision_changes (flapping 100) initial) = saves initial
   \<and> saves (decision_changes (flapping 100 @ [Some ''up'']) initial) = saves initial + 1
   \<and> backups (decision_changes (flapping 10100) initial) = backups initial
   \<and> backups (decision_changes (flapping 10100 @ flapping 101) initial) = backups initial + 1"
proof -
  have i: "press_counter initial = 0" "save_counter initial = 0" by (simp_all add: initial_def)
  have l: "length (flapping 100) = 100" "length (flapping 10100) = 101 * 100"
    "length (flapping 101) = 101"
    by (simp_all add: flapping_def)
  from checkpoint_after_101_changes [OF i l, of "Some ''up''"] i l show ?thesis by simp
qed

text \<open>After 100 decision changes from a fresh state nothing has been saved and the counter is 100.\<close>

theorem checkpoint_not_after_100_counterexample:
  "press_counter initial = 0
   \<and> length (flapping 100) = 100
   \<and> saves (decision_changes (flapping 100) initial) = 0
   \<and> press_counter (decision_changes (flapping 100) initial) = 100"
proof -
  have "press_counter initial + int (length (flapping 100)) \<le> 100"
    by (simp add: initial_def flapping_def)
  from decision_changes_below [OF this] show ?thesis
    by (simp add: initial_def flapping_def saves_def)
qed

subsection \<open>The last button\<close>

text \<open>
  C9, as the code has it. After a press by a registered player \<^verbatim>\<open>last_button\<close> is the
  pressed button; after a release by a registered player it is \<^verbatim>\<open>None\<close>, whatever was
  pressed before; every other event (a join, a leave, a press or release for a badge
  that is not registered) leaves it as it was.
\<close>

theorem last_button_after_event:
  "last_button (final (dispatch e s)) =
     (case e of
        Button_press button timestamp b \<Rightarrow>
          if map_of (players s) b = None then last_button s else Some button
      | Button_release button timestamp b \<Rightarrow>
          if map_of (players s) b = None then last_button s else None
      | Player_join b \<Rightarrow> last_button s
      | Player_leave b \<Rightarrow> last_button s)"
  by (cases e)
     (auto simp: on_player_join_def on_player_leave_def on_button_press_def on_button_release_def
       Let_def emit_def kick_def last_button_calculate_buttons split: option.splits)

text \<open>
  Badge 1 presses a, badge 2 presses b, badge 1 releases a: the most recent press is b,
  and \<^verbatim>\<open>last_button\<close> is \<^verbatim>\<open>None\<close>.
\<close>

theorem last_button_forgotten_counterexample:
  "last_button (run [Player_join 1, Player_join 2, Button_press ''a'' 0 1, Button_press ''b'' 1 2,
                     Button_release ''a'' 2 1] initial) = None"
  by code_simp

end
